theory Spec2Isabelle
  imports Complex_Main
begin

section \<open>Errors and images\<close>

text \<open>
  The exceptions that the modelled functions can raise. \<open>TemplateElementNotFound\<close>
  carries the template names that follow the fixed message in the exception's arguments.
\<close>

datatype error =
    IndexError
  | ZeroDivisionError
  | ValueError
  | TemplateElementNotFound "string list"
  | EnvironmentError

type_synonym rgb = "nat \<times> nat \<times> nat"

text \<open>
  A PIL image: its size and its pixels. \<open>pix\<close> is read only through \<open>getpixel\<close>,
  which is the pixel access object returned by \<open>Image.load\<close>: a read outside the image
  raises IndexError. All coordinates of the matcher come from \<open>range\<close> and
  \<open>randrange\<close> with a lower bound of 0, so they are natural numbers.
\<close>

record image =
  width :: nat
  height :: nat
  pix :: "nat \<times> nat \<Rightarrow> rgb"

definition getpixel :: "image \<Rightarrow> nat \<times> nat \<Rightarrow> error + rgb" where
  "getpixel data p =
     (if fst p < width data \<and> snd p < height data then Inr (pix data p) else Inl IndexError)"

section \<open>Loops\<close>

text \<open>A \<open>for\<close> loop whose body updates the loop's variables and may raise.\<close>

fun for_each :: "'a list \<Rightarrow> ('a \<Rightarrow> 's \<Rightarrow> error + 's) \<Rightarrow> 's \<Rightarrow> error + 's" where
  "for_each [] body s = Inr s"
| "for_each (x # xs) body s =
     (case body x s of Inl e \<Rightarrow> Inl e | Inr s' \<Rightarrow> for_each xs body s')"

text \<open>
  A \<open>for\<close> loop whose body may raise or \<open>return\<close> from the enclosing function:
  \<open>Inr (Some r)\<close> is a \<open>return r\<close>, \<open>Inr None\<close> is the loop running to its end.
\<close>

fun for_return :: "'a list \<Rightarrow> ('a \<Rightarrow> error + 'r option) \<Rightarrow> error + 'r option" where
  "for_return [] body = Inr None"
| "for_return (x # xs) body =
     (case body x of
        Inl e \<Rightarrow> Inl e
      | Inr (Some r) \<Rightarrow> Inr (Some r)
      | Inr None \<Rightarrow> for_return xs body)"

section \<open>The random source\<close>

text \<open>
  Python's \<open>random\<close> module is outside the repository. The generator is a stream of raw
  numbers and the count of those already used; \<open>randrange a b\<close> uses one raw number and
  answers a value of \<open>[a, b)\<close>, and raises ValueError on an empty range.
\<close>

record rng =
  raw :: "nat \<Rightarrow> nat"
  used :: nat

definition randrange :: "nat \<Rightarrow> nat \<Rightarrow> rng \<Rightarrow> error + nat \<times> rng" where
  "randrange a b g =
     (if b \<le> a then Inl ValueError
      else Inr (a + raw g (used g) mod (b - a), g\<lparr>used := Suc (used g)\<rparr>))"

section \<open>ImageCenterByRGB\<close>

text \<open>
  The body shared by the two comparison loops: the test
  \<open>bdata[_x + i, _y + j] == sdata[i, j]\<close> and the update of \<open>same\<close> and \<open>diff\<close>.
\<close>

definition compare_pixel ::
  "nat \<Rightarrow> nat \<Rightarrow> image \<Rightarrow> image \<Rightarrow> nat \<times> nat \<Rightarrow> nat \<times> nat \<Rightarrow> error + nat \<times> nat" where
  "compare_pixel px py bdata sdata p c =
     (case getpixel bdata (px + fst p, py + snd p) of
        Inl e \<Rightarrow> Inl e
      | Inr b \<Rightarrow>
          (case getpixel sdata p of
             Inl e \<Rightarrow> Inl e
           | Inr s \<Rightarrow> Inr (if b = s then (fst c + 1, snd c) else (fst c, snd c + 1))))"

text \<open>
  \<open>same / (same + diff) >= rate\<close>: Python's true division raises ZeroDivisionError on a
  zero denominator. The rate is a real number and the quotient is taken exactly.
\<close>

definition similarity_ge :: "nat \<times> nat \<Rightarrow> real \<Rightarrow> error + bool" where
  "similarity_ge c rate =
     (if fst c + snd c = 0 then Inl ZeroDivisionError
      else Inr (real (fst c) / real (fst c + snd c) \<ge> rate))"

definition check_match :: "nat \<Rightarrow> nat \<Rightarrow> image \<Rightarrow> image \<Rightarrow> image \<Rightarrow> real \<Rightarrow> error + bool" where
  "check_match px py small bdata sdata rate =
     (case for_each [0..<width small]
             (\<lambda>i. for_each [0..<height small] (\<lambda>j. compare_pixel px py bdata sdata (i, j)))
             (0, 0) of
        Inl e \<Rightarrow> Inl e
      | Inr c \<Rightarrow> similarity_ge c rate)"

fun sample_points ::
  "nat \<Rightarrow> image \<Rightarrow> (nat \<times> nat) list \<Rightarrow> rng \<Rightarrow> error + (nat \<times> nat) list \<times> rng" where
  "sample_points 0 small point_list g = Inr (point_list, g)"
| "sample_points (Suc n) small point_list g =
     (case randrange 0 (width small) g of
        Inl e \<Rightarrow> Inl e
      | Inr (s_x, g1) \<Rightarrow>
          (case randrange 0 (height small) g1 of
             Inl e \<Rightarrow> Inl e
           | Inr (s_y, g2) \<Rightarrow> sample_points n small (point_list @ [(s_x, s_y)]) g2))"

definition pre_random_point :: "image \<Rightarrow> rng \<Rightarrow> error + (nat \<times> nat) list \<times> rng" where
  "pre_random_point small g =
     (case randrange 10 20 g of
        Inl e \<Rightarrow> Inl e
      | Inr (count, g1) \<Rightarrow> sample_points count small [] g1)"

definition pre_random_match ::
  "nat \<Rightarrow> nat \<Rightarrow> (nat \<times> nat) list \<Rightarrow> image \<Rightarrow> image \<Rightarrow> real \<Rightarrow> error + bool" where
  "pre_random_match px py point_list bdata sdata rate =
     (case for_each point_list (compare_pixel px py bdata sdata) (0, 0) of
        Inl e \<Rightarrow> Inl e
      | Inr c \<Rightarrow> similarity_ge c rate)"

text \<open>
  \<open>int(_x + small.width / 2), int(_y + small.height / 2)\<close>: the sums are not negative, so
  the truncation is the floor.
\<close>

definition center :: "image \<Rightarrow> nat \<times> nat \<Rightarrow> nat \<times> nat" where
  "center small p = (fst p + width small div 2, snd p + height small div 2)"

text \<open>
  The body of the inner loop of \<open>image_center_by_rgb\<close> at the placement \<open>(_x, _y)\<close>,
  written \<open>(px, py)\<close>.
\<close>

definition try_placement ::
  "(nat \<times> nat) list \<Rightarrow> image \<Rightarrow> image \<Rightarrow> real \<Rightarrow> nat \<Rightarrow> nat \<Rightarrow> error + (nat \<times> nat) option" where
  "try_placement point_list small big rate px py =
     (case pre_random_match px py point_list big small rate of
        Inl e \<Rightarrow> Inl e
      | Inr False \<Rightarrow> Inr None
      | Inr True \<Rightarrow>
          (case check_match px py small big small rate of
             Inl e \<Rightarrow> Inl e
           | Inr False \<Rightarrow> Inr None
           | Inr True \<Rightarrow> Inr (Some (center small (px, py)))))"

text \<open>
  The two nested loops of \<open>image_center_by_rgb\<close>. \<open>range(big.width - small.width)\<close> is
  empty when the difference is zero or negative, as \<open>[0..<n]\<close> is on natural numbers.
\<close>

definition scan :: "(nat \<times> nat) list \<Rightarrow> image \<Rightarrow> image \<Rightarrow> real \<Rightarrow> error + (nat \<times> nat) option" where
  "scan point_list small big rate =
     for_return [0..<width big - width small]
       (\<lambda>px. for_return [0..<height big - height small]
          (\<lambda>py. try_placement point_list small big rate px py))"

text \<open>
  \<open>image_center_by_rgb\<close>, from the opened template \<open>small\<close> and the grabbed screen
  \<open>big\<close>. The result \<open>None\<close> is Python's \<open>False\<close>.
\<close>

definition image_center_by_rgb ::
  "rng \<Rightarrow> image \<Rightarrow> image \<Rightarrow> real \<Rightarrow> error + (nat \<times> nat) option \<times> rng" where
  "image_center_by_rgb g small big rate =
     (case pre_random_point small g of
        Inl e \<Rightarrow> Inl e
      | Inr (point_list, g') \<Rightarrow>
          (case scan point_list small big rate of
             Inl e \<Rightarrow> Inl e
           | Inr r \<Rightarrow> Inr (r, g')))"

section \<open>ImageCenter.find_image\<close>

text \<open>
  The module \<open>conf\<close> is outside the repository: the settings that \<open>find_image\<close>
  reads are a parameter.
\<close>

record conf =
  NETWORK_RETRY :: int
  PAUSE :: real
  TIMEOUT :: real
  MAX_MATCH_NUMBER :: int
  IMAGE_RATE :: real

text \<open>
  What \<open>_match_image_by_opencv\<close> hands back: the answer of the remote matcher (a
  point, a list of points, or \<open>False\<close>; \<open>LFalse\<close> also stands for the \<open>None\<close> of a
  call whose loop over \<open>range(network_retry + 1)\<close> is empty), or one of its two
  \<open>raise\<close> statements. Its body is screen capture, file and network traffic, so its
  outcome comes from the environment.
\<close>

datatype locate = LFalse | LPoint int int | LPoints "(int \<times> int) list"

datatype match_outcome = Returned locate | NoTemplatePath | ServerUnreachable

text \<open>The truth value of \<open>locate\<close>, as \<open>if not locate\<close> tests it.\<close>

fun truthy :: "locate \<Rightarrow> bool" where
  "truthy LFalse = False"
| "truthy (LPoint x y) = True"
| "truthy (LPoints ps) = (ps \<noteq> [])"

text \<open>
  The environment answers the \<open>k\<close>-th call of \<open>_match_image_by_opencv\<close> (from its
  arguments: template, rate, \<open>multiple\<close>, \<open>network_retry\<close>) and the \<open>k\<close>-th call of
  \<open>time.time\<close>.
\<close>

record env =
  match_image :: "nat \<Rightarrow> string \<Rightarrow> real \<Rightarrow> bool \<Rightarrow> int \<Rightarrow> match_outcome"
  time_now :: "nat \<Rightarrow> real"

text \<open>What \<open>find_image\<close> has done so far: the calls it made, in order.\<close>

record world =
  match_calls :: "(string \<times> real \<times> bool \<times> int) list"
  time_calls :: nat
  sleeps :: "int list"

definition call_match ::
  "env \<Rightarrow> string \<Rightarrow> real \<Rightarrow> bool \<Rightarrow> int \<Rightarrow> world \<Rightarrow> (error + locate) \<times> world" where
  "call_match ev element rate multiple network_retry w =
     ((case match_image ev (length (match_calls w)) element rate multiple network_retry of
         Returned l \<Rightarrow> Inr l
       | NoTemplatePath \<Rightarrow> Inl ValueError
       | ServerUnreachable \<Rightarrow> Inl EnvironmentError),
      w\<lparr>match_calls := match_calls w @ [(element, rate, multiple, network_retry)]\<rparr>)"

definition call_time :: "env \<Rightarrow> world \<Rightarrow> real \<times> world" where
  "call_time ev w = (time_now ev (time_calls w), w\<lparr>time_calls := Suc (time_calls w)\<rparr>)"

text \<open>\<open>time.sleep\<close> raises ValueError on a negative length.\<close>

definition call_sleep :: "int \<Rightarrow> world \<Rightarrow> (error + unit) \<times> world" where
  "call_sleep n w =
     (if n < 0 then (Inl ValueError, w) else (Inr (), w\<lparr>sleeps := sleeps w @ [n]\<rparr>))"

text \<open>\<open>int(pause)\<close> truncates towards zero.\<close>

definition py_int :: "real \<Rightarrow> int" where
  "py_int r = (if 0 \<le> r then \<lfloor>r\<rfloor> else \<lceil>r\<rceil>)"

text \<open>\<open>v if v else d\<close> on an optional number: \<open>None\<close> and zero are both false.\<close>

definition if_else :: "'a::zero option \<Rightarrow> 'a \<Rightarrow> 'a" where
  "if_else v d = (case v of None \<Rightarrow> d | Some x \<Rightarrow> if x = 0 then d else x)"

text \<open>
  The inner loop \<open>for _ in range(retry_number + 1)\<close>, by the number of iterations left.
  \<open>Inr (Some locate)\<close> is \<open>return locate\<close>; \<open>Inr None\<close> is the loop ending, by
  exhaustion or by \<open>break\<close>.
\<close>

fun retry_loop ::
  "nat \<Rightarrow> env \<Rightarrow> string \<Rightarrow> real \<Rightarrow> bool \<Rightarrow> int \<Rightarrow> real \<Rightarrow> real \<Rightarrow> real \<Rightarrow> world
     \<Rightarrow> (error + locate option) \<times> world" where
  "retry_loop 0 ev element rate multiple network_retry pause timeout start_time w =
     (Inr None, w)"
| "retry_loop (Suc n) ev element rate multiple network_retry pause timeout start_time w =
     (case call_match ev element rate multiple network_retry w of
        (Inl e, w1) \<Rightarrow> (Inl e, w1)
      | (Inr locate, w1) \<Rightarrow>
          if truthy locate then (Inr (Some locate), w1)
          else
            (case call_sleep (py_int pause) w1 of
               (Inl e, w2) \<Rightarrow> (Inl e, w2)
             | (Inr u, w2) \<Rightarrow>
                 (case call_time ev w2 of
                    (end_time, w3) \<Rightarrow>
                      if end_time - start_time > timeout then (Inr None, w3)
                      else retry_loop n ev element rate multiple network_retry pause timeout
                             start_time w3)))"

text \<open>The outer loop \<open>for element in widget\<close>.\<close>

fun widget_loop ::
  "string list \<Rightarrow> env \<Rightarrow> real \<Rightarrow> bool \<Rightarrow> int \<Rightarrow> real \<Rightarrow> real \<Rightarrow> int \<Rightarrow> world
     \<Rightarrow> (error + locate option) \<times> world" where
  "widget_loop [] ev rate multiple network_retry pause timeout retry_number w = (Inr None, w)"
| "widget_loop (element # rest) ev rate multiple network_retry pause timeout retry_number w =
     (case call_time ev w of
        (start_time, w1) \<Rightarrow>
          (case retry_loop (nat (retry_number + 1)) ev element rate multiple network_retry
                  pause timeout start_time w1 of
             (Inr None, w2) \<Rightarrow>
               widget_loop rest ev rate multiple network_retry pause timeout retry_number w2
           | (Inr (Some locate), w2) \<Rightarrow> (Inr (Some locate), w2)
           | (Inl e, w2) \<Rightarrow> (Inl e, w2)))"

text \<open>
  \<open>find_image\<close>. The arguments \<open>picture_abspath\<close>, \<open>screen_bbox\<close> and \<open>log_level\<close>
  are only handed on to \<open>_match_image_by_opencv\<close> and are left to the environment.
  \<open>max_match_number\<close> is an integer, so \<open>int(max_match_number)\<close> is the number itself.
  TemplateElementNotFound is a BaseException, which the \<open>except Exception\<close> clause
  does not catch; what that clause catches it raises again.
\<close>

definition find_image ::
  "conf \<Rightarrow> env \<Rightarrow> string list \<Rightarrow> real option \<Rightarrow> bool \<Rightarrow> int option \<Rightarrow> real option
     \<Rightarrow> real option \<Rightarrow> int option \<Rightarrow> world \<Rightarrow> (error + locate) \<times> world" where
  "find_image cf ev widget rate multiple network_retry pause timeout max_match_number w =
     (let network_retry = if_else network_retry (NETWORK_RETRY cf);
          pause = if_else pause (PAUSE cf);
          timeout = if_else timeout (TIMEOUT cf);
          max_match_number = if_else max_match_number (MAX_MATCH_NUMBER cf);
          retry_number = max_match_number
      in if retry_number < 0 then (Inl ValueError, w)
         else
           (let rate = (case rate of None \<Rightarrow> IMAGE_RATE cf | Some r \<Rightarrow> r)
            in case widget_loop widget ev rate multiple network_retry pause timeout
                      retry_number w of
                 (Inr None, w') \<Rightarrow> (Inl (TemplateElementNotFound widget), w')
               | (Inr (Some locate), w') \<Rightarrow> (Inr locate, w')
               | (Inl e, w') \<Rightarrow> (Inl e, w')))"

section \<open>Notions used in the statements\<close>

text \<open>The placements of the scan, in the order of the two loops.\<close>

definition candidates :: "image \<Rightarrow> image \<Rightarrow> (nat \<times> nat) list" where
  "candidates small big =
     List.product [0..<width big - width small] [0..<height big - height small]"

text \<open>The offsets of the template's pixels, in the order of the loops of \<open>_check_match\<close>.\<close>

definition grid :: "image \<Rightarrow> (nat \<times> nat) list" where
  "grid small = List.product [0..<width small] [0..<height small]"

definition agree :: "nat \<Rightarrow> nat \<Rightarrow> image \<Rightarrow> image \<Rightarrow> nat \<times> nat \<Rightarrow> bool" where
  "agree px py bdata sdata p = (pix bdata (px + fst p, py + snd p) = pix sdata p)"

text \<open>Both reads of one comparison are inside their images.\<close>

definition inside :: "nat \<Rightarrow> nat \<Rightarrow> image \<Rightarrow> image \<Rightarrow> nat \<times> nat \<Rightarrow> bool" where
  "inside px py bdata sdata p =
     (px + fst p < width bdata \<and> py + snd p < height bdata \<and>
      fst p < width sdata \<and> snd p < height sdata)"

text \<open>A placement passes the pre-filter and the full verification.\<close>

definition accepted :: "(nat \<times> nat) list \<Rightarrow> image \<Rightarrow> image \<Rightarrow> real \<Rightarrow> nat \<times> nat \<Rightarrow> bool" where
  "accepted point_list small big rate p =
     (pre_random_match (fst p) (snd p) point_list big small rate = Inr True \<and>
      check_match (fst p) (snd p) small big small rate = Inr True)"

text \<open>The template is pixel-identical to the region of the screen at a placement.\<close>

definition identical_at :: "image \<Rightarrow> image \<Rightarrow> nat \<times> nat \<Rightarrow> bool" where
  "identical_at small big p = list_all (agree (fst p) (snd p) big small) (grid small)"

definition in_template :: "image \<Rightarrow> (nat \<times> nat) list \<Rightarrow> bool" where
  "in_template small ps = list_all (\<lambda>p. fst p < width small \<and> snd p < height small) ps"

section \<open>Example images and generator\<close>

definition dot :: image where
  "dot = \<lparr>width = 1, height = 1, pix = (\<lambda>p. (255, 0, 0))\<rparr>"

definition two_dots :: image where
  "two_dots = \<lparr>width = 3, height = 3,
     pix = (\<lambda>p. if p = (0, 0) \<or> p = (1, 1) then (255, 0, 0) else (0, 0, 0))\<rparr>"

definition block :: image where
  "block = \<lparr>width = 2, height = 2, pix = (\<lambda>p. (fst p, snd p, 7))\<rparr>"

definition screen4 :: image where
  "screen4 = \<lparr>width = 4, height = 4,
     pix = (\<lambda>p. if fst p < 2 \<and> snd p < 2 then (fst p, snd p, 7) else (9, 9, 9))\<rparr>"

definition counting :: rng where
  "counting = \<lparr>raw = (\<lambda>k. k), used = 0\<rparr>"

text \<open>
  Settings, an environment in which the remote matcher never finds anything and the clock
  stands still, and the state before any call.
\<close>

definition conf0 :: conf where
  "conf0 = \<lparr>NETWORK_RETRY = 1, PAUSE = 1, TIMEOUT = 5, MAX_MATCH_NUMBER = 2, IMAGE_RATE = 9 / 10\<rparr>"

definition never_found :: env where
  "never_found = \<lparr>match_image = (\<lambda>k t r m nr. Returned LFalse), time_now = (\<lambda>k. 0)\<rparr>"

definition idle :: world where
  "idle = \<lparr>match_calls = [], time_calls = 0, sleeps = []\<rparr>"

section \<open>Properties of the loops, the sampler and the scan\<close>

lemma for_each_append:
  "for_each (xs @ ys) body s =
     (case for_each xs body s of Inl e \<Rightarrow> Inl e | Inr s' \<Rightarrow> for_each ys body s')"
  by (induction xs arbitrary: s) (auto split: sum.splits)

lemma for_each_map: "for_each (map f ys) body s = for_each ys (\<lambda>y. body (f y)) s"
  by (induction ys arbitrary: s) (auto split: sum.splits)

lemma for_each_nested:
  "for_each xs (\<lambda>i. for_each ys (\<lambda>j. body (i, j))) s = for_each (List.product xs ys) body s"
  by (induction xs arbitrary: s) (auto simp: for_each_append for_each_map split: sum.splits)

lemma for_return_append:
  "for_return (xs @ ys) body =
     (case for_return xs body of
        Inl e \<Rightarrow> Inl e | Inr (Some r) \<Rightarrow> Inr (Some r) | Inr None \<Rightarrow> for_return ys body)"
  by (induction xs) (auto split: sum.splits option.splits)

lemma for_return_map: "for_return (map f ys) body = for_return ys (\<lambda>y. body (f y))"
  by (induction ys) (auto split: sum.splits option.splits)

lemma for_return_nested:
  "for_return xs (\<lambda>i. for_return ys (\<lambda>j. body i j)) =
   for_return (List.product xs ys) (\<lambda>p. body (fst p) (snd p))"
  by (induction xs) (auto simp: for_return_append for_return_map split: sum.splits option.splits)

lemma for_return_find:
  "\<forall>x \<in> set xs. body x = Inr (if P x then Some (f x) else None) \<Longrightarrow>
   for_return xs body = Inr (map_option f (find P xs))"
  by (induction xs) auto

lemma compare_pixel_inside:
  "inside px py bdata sdata p \<Longrightarrow>
   compare_pixel px py bdata sdata p c =
     Inr (if agree px py bdata sdata p then (fst c + 1, snd c) else (fst c, snd c + 1))"
  by (simp add: compare_pixel_def getpixel_def inside_def agree_def)

lemma for_each_compare:
  "\<forall>p \<in> set ps. inside px py bdata sdata p \<Longrightarrow>
   for_each ps (compare_pixel px py bdata sdata) c =
     Inr (fst c + length (filter (agree px py bdata sdata) ps),
          snd c + length (filter (\<lambda>p. \<not> agree px py bdata sdata p) ps))"
  by (induction ps arbitrary: c) (auto simp: compare_pixel_inside)

lemma filter_split_length:
  "length (filter P ps) + length (filter (\<lambda>p. \<not> P p) ps) = length ps"
  by (induction ps) auto

lemma pre_random_match_inside:
  assumes "\<forall>p \<in> set ps. inside px py bdata sdata p"
  shows "pre_random_match px py ps bdata sdata rate =
     (if ps = [] then Inl ZeroDivisionError
      else Inr (rate \<le> real (length (filter (agree px py bdata sdata) ps)) / real (length ps)))"
  using assms filter_split_length [of "agree px py bdata sdata" ps]
  by (simp add: pre_random_match_def for_each_compare similarity_ge_def)

lemma check_match_inside:
  assumes "\<forall>p \<in> set (grid small). inside px py bdata sdata p"
  shows "check_match px py small bdata sdata rate =
     (if grid small = [] then Inl ZeroDivisionError
      else Inr (rate \<le> real (length (filter (agree px py bdata sdata) (grid small)))
                         / real (length (grid small))))"
  using assms filter_split_length [of "agree px py bdata sdata" "grid small"]
  by (simp add: check_match_def for_each_nested for_each_compare similarity_ge_def
      flip: grid_def)

lemma candidates_inside:
  assumes "c \<in> set (candidates small big)" "fst p < width small" "snd p < height small"
  shows "inside (fst c) (snd c) big small p"
  using assms by (auto simp: candidates_def inside_def)

lemma grid_iff: "p \<in> set (grid small) \<longleftrightarrow> fst p < width small \<and> snd p < height small"
  by (cases p) (auto simp: grid_def)

lemma grid_empty_iff: "grid small = [] \<longleftrightarrow> width small = 0 \<or> height small = 0"
proof -
  have "grid small = [] \<longleftrightarrow> length (grid small) = 0" by simp
  also have "\<dots> \<longleftrightarrow> width small = 0 \<or> height small = 0"
    by (simp add: grid_def del: length_0_conv)
  finally show ?thesis .
qed

lemma sample_points_eq:
  assumes "0 < width small" "0 < height small"
  shows "sample_points n small acc g =
     Inr (acc @ map (\<lambda>i. (raw g (used g + 2 * i) mod width small,
                          raw g (used g + 2 * i + 1) mod height small)) [0..<n],
          g\<lparr>used := used g + 2 * n\<rparr>)"
  using assms
proof (induction n arbitrary: acc g)
  case 0
  then show ?case by simp
next
  case (Suc n)
  have "map (\<lambda>i. (raw g (used g + 2 * i) mod width small,
                  raw g (used g + 2 * i + 1) mod height small)) [0..<Suc n]
      = (raw g (used g) mod width small, raw g (Suc (used g)) mod height small) #
        map (\<lambda>i. (raw g (Suc (Suc (used g)) + 2 * i) mod width small,
                  raw g (Suc (Suc (used g)) + 2 * i + 1) mod height small)) [0..<n]"
    by (simp add: upt_conv_Cons map_Suc_upt [symmetric] del: upt_Suc)
  with Suc show ?case
    by (simp add: randrange_def del: upt_Suc)
qed

lemma pre_random_point_eq:
  assumes "0 < width small" "0 < height small"
  shows "pre_random_point small g =
     Inr (map (\<lambda>i. (raw g (used g + 1 + 2 * i) mod width small,
                    raw g (used g + 1 + 2 * i + 1) mod height small))
            [0..<10 + raw g (used g) mod 10],
          g\<lparr>used := used g + 1 + 2 * (10 + raw g (used g) mod 10)\<rparr>)"
  using assms by (simp add: pre_random_point_def randrange_def sample_points_eq del: upt_Suc)

lemma pre_random_point_in_template:
  assumes "pre_random_point small g = Inr (pts, g')"
  shows "0 < width small \<and> 0 < height small"
proof (rule ccontr)
  assume "\<not> ?thesis"
  then have z: "width small = 0 \<or> height small = 0" by auto
  have "sample_points n small acc h = Inl ValueError" if "0 < n" for n acc h
    using z that by (cases n) (auto simp: randrange_def)
  then have "pre_random_point small g = Inl ValueError"
    by (simp add: pre_random_point_def randrange_def)
  with assms show False by simp
qed

lemma pre_random_point_props:
  assumes "pre_random_point small g = Inr (pts, g')"
  shows "10 \<le> length pts" "length pts < 20" "in_template small pts"
    "g' = g\<lparr>used := used g + 1 + 2 * length pts\<rparr>"
proof -
  from pre_random_point_in_template [OF assms]
  have w: "0 < width small" and h: "0 < height small" by auto
  note eq = pre_random_point_eq [OF w h, of g]
  from assms eq show "10 \<le> length pts" by auto
  from assms eq show "length pts < 20" by auto
  have "raw g k mod width small < width small" "raw g k mod height small < height small" for k
    using w h by auto
  with assms eq show "in_template small pts"
    by (auto simp: in_template_def list_all_iff)
  from assms eq show "g' = g\<lparr>used := used g + 1 + 2 * length pts\<rparr>" by auto
qed

lemma try_placement_candidate:
  assumes c: "c \<in> set (candidates small big)"
    and pts: "pts \<noteq> []" "in_template small pts"
    and wh: "0 < width small" "0 < height small"
  shows "try_placement pts small big rate (fst c) (snd c) =
     Inr (if accepted pts small big rate c then Some (center small c) else None)"
proof -
  have i1: "\<forall>p \<in> set pts. inside (fst c) (snd c) big small p"
    using c pts by (auto simp: in_template_def list_all_iff intro!: candidates_inside)
  have i2: "\<forall>p \<in> set (grid small). inside (fst c) (snd c) big small p"
    using c by (auto simp: grid_iff intro!: candidates_inside)
  have ne: "grid small \<noteq> []" using wh by (simp add: grid_empty_iff)
  obtain b1 where b1: "pre_random_match (fst c) (snd c) pts big small rate = Inr b1"
    using pts(1) by (simp add: pre_random_match_inside [OF i1])
  obtain b2 where b2: "check_match (fst c) (snd c) small big small rate = Inr b2"
    using ne by (simp add: check_match_inside [OF i2])
  show ?thesis
    by (cases b1; cases b2) (simp_all add: try_placement_def accepted_def b1 b2)
qed

lemma scan_find:
  assumes pts: "pts \<noteq> []" "in_template small pts"
    and wh: "0 < width small" "0 < height small"
  shows "scan pts small big rate =
     Inr (map_option (center small) (find (accepted pts small big rate) (candidates small big)))"
proof -
  have "scan pts small big rate =
      for_return (candidates small big)
        (\<lambda>p. try_placement pts small big rate (fst p) (snd p))"
    by (simp add: scan_def candidates_def for_return_nested)
  also have "\<dots> = Inr (map_option (center small)
      (find (accepted pts small big rate) (candidates small big)))"
    by (rule for_return_find) (simp add: try_placement_candidate [OF _ pts wh])
  finally show ?thesis .
qed

lemma image_center_by_rgb_find:
  assumes "pre_random_point small g = Inr (pts, g')"
  shows "image_center_by_rgb g small big rate =
     Inr (map_option (center small) (find (accepted pts small big rate) (candidates small big)),
          g')"
proof -
  from pre_random_point_in_template [OF assms]
  have wh: "0 < width small" "0 < height small" by auto
  from pre_random_point_props [OF assms] have "pts \<noteq> []" "in_template small pts" by auto
  from scan_find [OF this wh] assms show ?thesis
    by (simp add: image_center_by_rgb_def)
qed

lemma filter_all_iff: "length ps \<le> length (filter P ps) \<longleftrightarrow> (\<forall>p \<in> set ps. P p)"
proof (induction ps)
  case Nil
  then show ?case by simp
next
  case (Cons a ps)
  from length_filter_le [of P ps] Cons show ?case by auto
qed

lemma accepted_rate_one:
  assumes c: "c \<in> set (candidates small big)"
    and pts: "pts \<noteq> []" "in_template small pts"
    and wh: "0 < width small" "0 < height small"
  shows "accepted pts small big 1 c \<longleftrightarrow> identical_at small big c"
proof -
  have i1: "\<forall>p \<in> set pts. inside (fst c) (snd c) big small p"
    using c pts by (auto simp: in_template_def list_all_iff intro!: candidates_inside)
  have i2: "\<forall>p \<in> set (grid small). inside (fst c) (snd c) big small p"
    using c by (auto simp: grid_iff intro!: candidates_inside)
  have ne: "grid small \<noteq> []" using wh by (simp add: grid_empty_iff)
  have sub: "set pts \<subseteq> set (grid small)"
    using pts by (auto simp: in_template_def list_all_iff grid_iff)
  have "accepted pts small big 1 c \<longleftrightarrow>
      (\<forall>p \<in> set pts. agree (fst c) (snd c) big small p) \<and>
      (\<forall>p \<in> set (grid small). agree (fst c) (snd c) big small p)"
    using pts(1) ne
    by (simp add: accepted_def pre_random_match_inside [OF i1] check_match_inside [OF i2]
        filter_all_iff)
  also have "\<dots> \<longleftrightarrow> identical_at small big c"
    using sub by (auto simp: identical_at_def list_all_iff)
  finally show ?thesis .
qed

subsection \<open>The examples\<close>

lemma dot_size: "width dot = 1" "height dot = 1"
  by (simp_all add: dot_def)

lemma block_size: "width block = 2" "height block = 2"
  by (simp_all add: block_def)

lemma candidates_dot_two_dots: "candidates dot two_dots = [(0, 0), (0, 1), (1, 0), (1, 1)]"
  by (simp add: candidates_def dot_def two_dots_def upt_rec)

lemma grid_dot: "grid dot = [(0, 0)]"
  by (simp add: grid_def dot_def)

lemma identical_dot_two_dots:
  "identical_at dot two_dots (0, 0)" "\<not> identical_at dot two_dots (0, 1)"
  "\<not> identical_at dot two_dots (1, 0)" "identical_at dot two_dots (1, 1)"
  by (simp_all add: identical_at_def grid_dot agree_def) (simp_all add: dot_def two_dots_def)

lemma pre_random_point_dot:
  "pre_random_point dot counting = Inr (replicate 10 (0, 0), counting\<lparr>used := 21\<rparr>)"
proof -
  have "0 < width dot" "0 < height dot" by (simp_all add: dot_def)
  from pre_random_point_eq [OF this, of counting] show ?thesis
    by (simp add: counting_def dot_def map_replicate_const del: upt_Suc)
qed

lemma candidates_block_screen4: "candidates block screen4 = [(0, 0), (0, 1), (1, 0), (1, 1)]"
  by (simp add: candidates_def block_def screen4_def upt_rec)

lemma grid_block: "grid block = [(0, 0), (0, 1), (1, 0), (1, 1)]"
  by (simp add: grid_def block_def upt_rec)

lemma identical_block_screen4: "identical_at block screen4 (0, 0)"
  by (simp add: identical_at_def grid_block agree_def) (simp add: block_def screen4_def)

lemma pre_random_point_block:
  "pre_random_point block counting = Inr (replicate 10 (1, 0), counting\<lparr>used := 21\<rparr>)"
proof -
  have "0 < width block" "0 < height block" by (simp_all add: block_def)
  from pre_random_point_eq [OF this, of counting] show ?thesis
    by (simp add: counting_def block_def map_replicate_const del: upt_Suc)
qed

section \<open>The claims about ImageCenterByRGB\<close>

lemma similarity_ge_mono:
  "similarity_ge c r = Inr True \<Longrightarrow> r' \<le> r \<Longrightarrow> similarity_ge c r' = Inr True"
  by (auto simp: similarity_ge_def split: if_splits)

text \<open>
  Claim C5 (rate monotonicity). A placement that the pre-filter accepts at rate \<open>r\<close> is
  accepted by it at every rate \<open>r' \<le> r\<close>, and the same holds for the full verification:
  the counts of equal and unequal pixels do not depend on the rate, only the comparison
  with the threshold does. This holds for every placement, every pair of images and every
  sample list, also where a read fails.
\<close>

theorem rate_monotone:
  assumes "r' \<le> r"
  shows "(pre_random_match px py pts bdata sdata r = Inr True \<longrightarrow>
            pre_random_match px py pts bdata sdata r' = Inr True) \<and>
         (check_match px py small bdata sdata r = Inr True \<longrightarrow>
            check_match px py small bdata sdata r' = Inr True)"
  using assms
  by (auto simp: pre_random_match_def check_match_def split: sum.splits
      dest: similarity_ge_mono)

lemma accepted_dot_two_dots:
  assumes "c \<in> set (candidates dot two_dots)"
  shows "accepted (replicate 10 (0, 0)) dot two_dots 1 c = identical_at dot two_dots c"
  by (rule accepted_rate_one [OF assms]) (simp_all add: in_template_def list_all_iff dot_size)

text \<open>Witness: the red dot at the top-left corner of the screen, at rates 1 and 1/2.\<close>

theorem rate_monotone_witness:
  "(1 / 2 :: real) \<le> 1 \<and>
   pre_random_match 0 0 (replicate 10 (0, 0)) two_dots dot 1 = Inr True \<and>
   pre_random_match 0 0 (replicate 10 (0, 0)) two_dots dot (1 / 2) = Inr True \<and>
   check_match 0 0 dot two_dots dot 1 = Inr True \<and>
   check_match 0 0 dot two_dots dot (1 / 2) = Inr True"
proof -
  have "accepted (replicate 10 (0, 0)) dot two_dots 1 (0, 0)"
    by (simp add: accepted_dot_two_dots candidates_dot_two_dots identical_dot_two_dots)
  then have a: "pre_random_match 0 0 (replicate 10 (0, 0)) two_dots dot 1 = Inr True"
    and b: "check_match 0 0 dot two_dots dot 1 = Inr True"
    by (simp_all add: accepted_def)
  have h: "(1 / 2 :: real) \<le> 1" by simp
  from rate_monotone [OF h, of 0 0 "replicate 10 (0, 0)" two_dots dot dot] a b h
  show ?thesis by simp
qed

text \<open>
  Claim C2 (scan order and first match). The two loops visit the placements with \<open>x\<close>
  outermost over \<open>[0, big.width - small.width)\<close> and \<open>y\<close> innermost over
  \<open>[0, big.height - small.height)\<close>. With the sample list that the sampler drew,
  \<open>image_center_by_rgb\<close> returns the centre
  \<open>(x + small.width div 2, y + small.height div 2)\<close> of the first placement in this order
  that passes both the pre-filter and the full verification, and \<open>False\<close> when there is
  none. The function has no \<open>multiple\<close> argument: this is what it always does.
\<close>

theorem first_accepted_in_scan_order:
  assumes "pre_random_point small g = Inr (pts, g')"
  shows "image_center_by_rgb g small big rate =
           Inr (map_option (\<lambda>(x, y). (x + width small div 2, y + height small div 2))
                  (find (accepted pts small big rate) (candidates small big)), g') \<and>
         candidates small big =
           concat (map (\<lambda>x. map (\<lambda>y. (x, y)) [0..<height big - height small])
                     [0..<width big - width small])"
proof -
  have "center small = (\<lambda>(x, y). (x + width small div 2, y + height small div 2))"
    by (auto simp: center_def fun_eq_iff)
  with image_center_by_rgb_find [OF assms, of big rate] show ?thesis
    by (simp add: candidates_def product_concat_map)
qed

text \<open>
  Witness: a 4 by 4 screen whose top-left 2 by 2 block is the template; the result is
  \<open>(1, 1)\<close>.
\<close>

theorem first_accepted_in_scan_order_witness:
  "pre_random_point block counting = Inr (replicate 10 (1, 0), counting\<lparr>used := 21\<rparr>) \<and>
   image_center_by_rgb counting block screen4 1 = Inr (Some (1, 1), counting\<lparr>used := 21\<rparr>) \<and>
   candidates block screen4 = [(0, 0), (0, 1), (1, 0), (1, 1)]"
proof -
  have "accepted (replicate 10 (1, 0)) block screen4 1 (0, 0)
      = identical_at block screen4 (0, 0)"
    by (rule accepted_rate_one)
      (simp_all add: candidates_block_screen4 in_template_def list_all_iff block_size)
  then have acc: "accepted (replicate 10 (1, 0)) block screen4 1 (0, 0)"
    by (simp add: identical_block_screen4)
  from first_accepted_in_scan_order [OF pre_random_point_block, of screen4 1]
  have "image_center_by_rgb counting block screen4 1 =
      Inr (map_option (\<lambda>(x, y). (x + width block div 2, y + height block div 2))
             (find (accepted (replicate 10 (1, 0)) block screen4 1) (candidates block screen4)),
           counting\<lparr>used := 21\<rparr>)"
    by simp
  with acc have "image_center_by_rgb counting block screen4 1 =
      Inr (Some (1, 1), counting\<lparr>used := 21\<rparr>)"
    by (simp add: candidates_block_screen4 block_size)
  then show ?thesis
    by (simp add: pre_random_point_block candidates_block_screen4)
qed

text \<open>
  Claim C1, amended. For a template with at least one pixel and a candidate placement at
  which the template is pixel-identical to the screen, \<open>image_center_by_rgb\<close> at rate 1
  returns, whatever sample points were drawn, the centre of the first placement in scan
  order at which the template is pixel-identical to the screen; this is the given
  placement when no earlier one is identical.
\<close>

theorem identical_placement_rate_one:
  assumes "0 < width small" "0 < height small"
    and "c0 \<in> set (candidates small big)" "identical_at small big c0"
  shows "\<exists>c g'. find (identical_at small big) (candidates small big) = Some c \<and>
           image_center_by_rgb g small big 1 = Inr (Some (center small c), g')"
proof -
  from pre_random_point_eq [OF assms(1,2), of g]
  obtain pts g' where s: "pre_random_point small g = Inr (pts, g')" by blast
  from pre_random_point_props [OF s] have pts: "pts \<noteq> []" "in_template small pts" by auto
  have "find (accepted pts small big 1) (candidates small big)
      = find (identical_at small big) (candidates small big)"
    by (rule find_cong) (simp_all add: accepted_rate_one [OF _ pts assms(1,2)])
  moreover have "find (identical_at small big) (candidates small big) \<noteq> None"
    using assms(3,4) unfolding find_None_iff by blast
  then obtain c where "find (identical_at small big) (candidates small big) = Some c"
    by blast
  ultimately show ?thesis
    using image_center_by_rgb_find [OF s, of big 1] by simp
qed

text \<open>Witness: the red dot on a screen with red pixels at \<open>(0, 0)\<close> and \<open>(1, 1)\<close>.\<close>

theorem identical_placement_rate_one_witness:
  "0 < width dot \<and> 0 < height dot \<and> (1, 1) \<in> set (candidates dot two_dots) \<and>
   identical_at dot two_dots (1, 1) \<and>
   find (identical_at dot two_dots) (candidates dot two_dots) = Some (0, 0) \<and>
   (\<exists>g'. image_center_by_rgb counting dot two_dots 1 = Inr (Some (center dot (0, 0)), g'))"
proof -
  have h: "0 < width dot" "0 < height dot" "(1, 1) \<in> set (candidates dot two_dots)"
    "identical_at dot two_dots (1, 1)"
    using identical_dot_two_dots by (simp_all add: candidates_dot_two_dots dot_size)
  have f: "find (identical_at dot two_dots) (candidates dot two_dots) = Some (0, 0)"
    by (simp add: candidates_dot_two_dots identical_dot_two_dots)
  from identical_placement_rate_one [OF h, of counting] f h show ?thesis
    by auto
qed

text \<open>
  Claim C1 as stated fails: the placement \<open>(1, 1)\<close> is in the candidate range and
  pixel-identical to the template, and at rate 1 the result is not its centre
  \<open>(1, 1)\<close> but \<open>(0, 0)\<close>, the centre of the earlier identical placement.
\<close>

theorem identical_placement_counterexample:
  "(1, 1) \<in> set (candidates dot two_dots) \<and> identical_at dot two_dots (1, 1) \<and>
   center dot (1, 1) = (1, 1) \<and>
   image_center_by_rgb counting dot two_dots 1 = Inr (Some (0, 0), counting\<lparr>used := 21\<rparr>)"
proof -
  have "find (accepted (replicate 10 (0, 0)) dot two_dots 1) (candidates dot two_dots)
      = find (identical_at dot two_dots) (candidates dot two_dots)"
    by (rule find_cong) (simp_all add: accepted_dot_two_dots)
  also have "\<dots> = Some (0, 0)"
    by (simp add: candidates_dot_two_dots identical_dot_two_dots)
  finally have "image_center_by_rgb counting dot two_dots 1 =
      Inr (Some (center dot (0, 0)), counting\<lparr>used := 21\<rparr>)"
    using image_center_by_rgb_find [OF pre_random_point_dot, of two_dots 1] by simp
  with identical_dot_two_dots show ?thesis
    by (simp add: candidates_dot_two_dots center_def dot_size)
qed

lemma for_return_all_None: "\<forall>x \<in> set xs. body x = Inr None \<Longrightarrow> for_return xs body = Inr None"
  by (induction xs) auto

lemma candidates_strictly_inside:
  "c \<in> set (candidates small big) \<Longrightarrow>
   fst c + width small < width big \<and> snd c + height small < height big"
  by (auto simp: candidates_def)

lemma pre_random_point_zero:
  assumes "width small = 0 \<or> height small = 0"
  shows "pre_random_point small g = Inl ValueError"
proof -
  have "sample_points n small acc h = Inl ValueError" if "0 < n" for n acc h
    using assms that by (cases n) (auto simp: randrange_def)
  then show ?thesis
    by (simp add: pre_random_point_def randrange_def)
qed

lemma pre_random_point_total:
  assumes "0 < width small" "0 < height small"
  shows "\<exists>pts g'. pre_random_point small g = Inr (pts, g')"
  using pre_random_point_eq [OF assms, of g] by blast

text \<open>
  Claim C3 (equal sizes). Every placement of the scan leaves the template's right and
  bottom edges strictly inside the screen, so the placement whose edge meets the
  screen's edge is never tested. When the template is as wide as the screen, or as
  high, there is no placement at all: the scan returns \<open>False\<close> for every sample list,
  even the empty one on which a single test would divide by zero, and
  \<open>image_center_by_rgb\<close> reports not-found.
\<close>

theorem equal_size_never_tested:
  "(\<forall>c \<in> set (candidates small big).
      fst c + width small < width big \<and> snd c + height small < height big) \<and>
   (0 < width small \<and> 0 < height small \<and>
    (width small = width big \<or> height small = height big) \<longrightarrow>
      candidates small big = [] \<and>
      (\<forall>pts. scan pts small big rate = Inr None) \<and>
      (\<exists>g'. image_center_by_rgb g small big rate = Inr (None, g')))"
proof (intro conjI impI allI ballI)
  fix c assume "c \<in> set (candidates small big)"
  then show "fst c + width small < width big" "snd c + height small < height big"
    by (simp_all add: candidates_strictly_inside)
next
  assume a: "0 < width small \<and> 0 < height small \<and>
    (width small = width big \<or> height small = height big)"
  then have "length (candidates small big) = 0"
    by (auto simp: candidates_def)
  then show "candidates small big = []" by simp
  show s: "scan pts small big rate = Inr None" for pts
    using a by (auto simp: scan_def intro!: for_return_all_None)
  from a pre_random_point_total [of small g] obtain pts g'
    where "pre_random_point small g = Inr (pts, g')" by blast
  then show "\<exists>g'. image_center_by_rgb g small big rate = Inr (None, g')"
    by (simp add: image_center_by_rgb_def s)
qed

text \<open>Witness: the dot against the 3 by 3 screen, and the dot against itself.\<close>

theorem equal_size_never_tested_witness:
  "(1, 1) \<in> set (candidates dot two_dots) \<and> 1 + width dot < width two_dots \<and>
   1 + height dot < height two_dots \<and>
   0 < width dot \<and> 0 < height dot \<and> width dot = width dot \<and>
   candidates dot dot = [] \<and> scan [] dot dot 1 = Inr None \<and>
   (\<exists>g'. image_center_by_rgb counting dot dot 1 = Inr (None, g'))"
proof -
  have m: "(1, 1) \<in> set (candidates dot two_dots)"
    by (simp add: candidates_dot_two_dots)
  have h: "0 < width dot \<and> 0 < height dot \<and> (width dot = width dot \<or> height dot = height dot)"
    by (simp add: dot_size)
  from equal_size_never_tested [of dot two_dots 1 counting] m
  have "1 + width dot < width two_dots \<and> 1 + height dot < height two_dots"
    by fastforce
  moreover from equal_size_never_tested [of dot dot 1 counting] h
  have "candidates dot dot = [] \<and> scan [] dot dot 1 = Inr None \<and>
      (\<exists>g'. image_center_by_rgb counting dot dot 1 = Inr (None, g'))"
    by blast
  ultimately show ?thesis using m h by simp
qed

lemma find_Some_split:
  "find P xs = Some x \<Longrightarrow>
   \<exists>pre post. xs = pre @ x # post \<and> (\<forall>y \<in> set pre. \<not> P y) \<and> P x"
proof (induction xs)
  case Nil
  then show ?case by simp
next
  case (Cons a xs)
  show ?case
  proof (cases "P a")
    case True
    with Cons.prems have "a = x" by simp
    with True have "a # xs = [] @ x # xs \<and> (\<forall>y \<in> set []. \<not> P y) \<and> P x" by simp
    then show ?thesis by blast
  next
    case False
    with Cons obtain pre post where "xs = pre @ x # post" "\<forall>y \<in> set pre. \<not> P y" "P x"
      by auto
    with False have "a # xs = (a # pre) @ x # post \<and> (\<forall>y \<in> set (a # pre). \<not> P y) \<and> P x"
      by simp
    then show ?thesis by blast
  qed
qed

text \<open>
  Claim C4, amended. \<open>image_center_by_rgb\<close> has no \<open>multiple\<close> mode: whenever some
  placement is accepted, it returns at the first accepted placement in scan order and
  its result is the centre of that placement alone; the placements after it are not
  visited, accepted or not.
\<close>

theorem only_first_center_returned:
  assumes "pre_random_point small g = Inr (pts, g')"
    and "c2 \<in> set (candidates small big)" "accepted pts small big rate c2"
  shows "\<exists>pre c post. candidates small big = pre @ c # post \<and>
           (\<forall>c' \<in> set pre. \<not> accepted pts small big rate c') \<and>
           accepted pts small big rate c \<and>
           image_center_by_rgb g small big rate = Inr (Some (center small c), g')"
proof -
  have "find (accepted pts small big rate) (candidates small big) \<noteq> None"
    using assms(2,3) unfolding find_None_iff by blast
  then obtain c where c: "find (accepted pts small big rate) (candidates small big) = Some c"
    by blast
  from find_Some_split [OF c] obtain pre post
    where "candidates small big = pre @ c # post"
      "\<forall>c' \<in> set pre. \<not> accepted pts small big rate c'" "accepted pts small big rate c"
    by blast
  moreover have "image_center_by_rgb g small big rate = Inr (Some (center small c), g')"
    using image_center_by_rgb_find [OF assms(1), of big rate] c by simp
  ultimately show ?thesis by blast
qed

text \<open>
  Witness: the dot on the screen with two red pixels, with the second one as the accepted
  placement.
\<close>

theorem only_first_center_returned_witness:
  "pre_random_point dot counting = Inr (replicate 10 (0, 0), counting\<lparr>used := 21\<rparr>) \<and>
   (1, 1) \<in> set (candidates dot two_dots) \<and>
   accepted (replicate 10 (0, 0)) dot two_dots 1 (1, 1) \<and>
   (\<exists>pre c post. candidates dot two_dots = pre @ c # post \<and>
      (\<forall>c' \<in> set pre. \<not> accepted (replicate 10 (0, 0)) dot two_dots 1 c') \<and>
      accepted (replicate 10 (0, 0)) dot two_dots 1 c \<and>
      image_center_by_rgb counting dot two_dots 1 =
        Inr (Some (center dot c), counting\<lparr>used := 21\<rparr>))"
proof -
  have m: "(1, 1) \<in> set (candidates dot two_dots)"
    by (simp add: candidates_dot_two_dots)
  have a: "accepted (replicate 10 (0, 0)) dot two_dots 1 (1, 1)"
    using identical_dot_two_dots accepted_dot_two_dots [OF m] by simp
  from only_first_center_returned [OF pre_random_point_dot m a] pre_random_point_dot m a
  show ?thesis by blast
qed

text \<open>
  Claim C4 as stated fails: the screen holds two disjoint blocks identical to the
  template, at \<open>(0, 0)\<close> and \<open>(1, 1)\<close>, both accepted at rate 1, and the result is the
  single centre \<open>(0, 0)\<close>, not both centres.
\<close>

theorem multiple_counterexample:
  "identical_at dot two_dots (0, 0) \<and> identical_at dot two_dots (1, 1) \<and>
   accepted (replicate 10 (0, 0)) dot two_dots 1 (0, 0) \<and>
   accepted (replicate 10 (0, 0)) dot two_dots 1 (1, 1) \<and>
   center dot (0, 0) = (0, 0) \<and> center dot (1, 1) = (1, 1) \<and>
   pre_random_point dot counting = Inr (replicate 10 (0, 0), counting\<lparr>used := 21\<rparr>) \<and>
   image_center_by_rgb counting dot two_dots 1 = Inr (Some (0, 0), counting\<lparr>used := 21\<rparr>)"
proof -
  have a: "accepted (replicate 10 (0, 0)) dot two_dots 1 (0, 0)"
    "accepted (replicate 10 (0, 0)) dot two_dots 1 (1, 1)"
    using identical_dot_two_dots accepted_dot_two_dots [of "(0, 0)"]
      accepted_dot_two_dots [of "(1, 1)"]
    by (simp_all add: candidates_dot_two_dots)
  then have "find (accepted (replicate 10 (0, 0)) dot two_dots 1) (candidates dot two_dots)
      = Some (0, 0)"
    by (simp add: candidates_dot_two_dots)
  then have "image_center_by_rgb counting dot two_dots 1 =
      Inr (Some (center dot (0, 0)), counting\<lparr>used := 21\<rparr>)"
    using image_center_by_rgb_find [OF pre_random_point_dot, of two_dots 1] by simp
  with a identical_dot_two_dots show ?thesis
    by (simp add: center_def dot_size pre_random_point_dot)
qed

lemma scan_candidates:
  "scan pts small big rate =
     for_return (candidates small big) (\<lambda>c. try_placement pts small big rate (fst c) (snd c))"
  by (simp add: scan_def candidates_def for_return_nested)

lemma pre_random_point_reaches:
  assumes n: "10 \<le> length target" "length target < 20" and t: "in_template small target"
  shows "pre_random_point small
           \<lparr>raw = (\<lambda>k. if k = 0 then length target - 10
                        else if odd k then fst (target ! ((k - 1) div 2))
                        else snd (target ! ((k - 2) div 2))),
            used = 0\<rparr>
         = Inr (target,
            \<lparr>raw = (\<lambda>k. if k = 0 then length target - 10
                        else if odd k then fst (target ! ((k - 1) div 2))
                        else snd (target ! ((k - 2) div 2))),
             used = 1 + 2 * length target\<rparr>)"
proof -
  from n obtain p where "p \<in> set target" by (cases target) auto
  with t have wh: "0 < width small" "0 < height small"
    by (auto simp: in_template_def list_all_iff)
  have len: "10 + (length target - 10) mod 10 = length target"
    using n by simp
  have pt: "(fst (target ! i) mod width small, snd (target ! i) mod height small) = target ! i"
    if "i < length target" for i
    using t that by (auto simp: in_template_def list_all_iff prod_eq_iff)
  have "map (\<lambda>i. (fst (target ! i) mod width small, snd (target ! i) mod height small))
          [0..<length target] = map (\<lambda>i. target ! i) [0..<length target]"
    by (rule map_cong) (simp_all add: pt)
  then show ?thesis
    using pre_random_point_eq [OF wh] len
    by (simp add: map_nth del: upt_Suc)
qed

text \<open>
  Claim C6 (the sampler, and one sample list for each call). For a template with at least
  one pixel, \<open>_pre_random_point\<close> returns a list whose length is the value drawn by
  \<open>randrange(10, 20)\<close>, so it lies in \<open>[10, 20)\<close>; the coordinates of its \<open>i\<close>-th
  point are the next two draws, one by \<open>randrange(0, small.width)\<close> and one by
  \<open>randrange(0, small.height)\<close>, each a draw of its own, so the point lies in the
  template. Every list of such a length with points in the template is drawn from some
  state of the generator. \<open>image_center_by_rgb\<close> uses the generator for this one
  list only, \<open>1 + 2 * length\<close> draws before the scan however many placements there are,
  and tests every placement against that same list. That a draw of \<open>randrange\<close> is
  uniform is the contract of Python's \<open>random\<close> module, which the list inherits
  unchanged.
\<close>

theorem sample_drawn_once:
  assumes "0 < width small" "0 < height small"
  shows "\<exists>pts g'.
      pre_random_point small g = Inr (pts, g') \<and>
      randrange 10 20 g = Inr (length pts, g\<lparr>used := Suc (used g)\<rparr>) \<and>
      10 \<le> length pts \<and> length pts < 20 \<and>
      (\<forall>i < length pts.
         pts ! i = (raw g (used g + 1 + 2 * i) mod width small,
                    raw g (used g + 2 + 2 * i) mod height small) \<and>
         fst (pts ! i) < width small \<and> snd (pts ! i) < height small) \<and>
      g' = g\<lparr>used := used g + 1 + 2 * length pts\<rparr> \<and>
      image_center_by_rgb g small big rate =
        (case for_return (candidates small big)
                (\<lambda>c. try_placement pts small big rate (fst c) (snd c)) of
           Inl e \<Rightarrow> Inl e
         | Inr r \<Rightarrow> Inr (r, g')) \<and>
      (\<forall>target. 10 \<le> length target \<and> length target < 20 \<and> in_template small target \<longrightarrow>
         (\<exists>g0 g1. pre_random_point small g0 = Inr (target, g1)))"
proof -
  let ?pts = "map (\<lambda>i. (raw g (used g + 1 + 2 * i) mod width small,
                         raw g (used g + 1 + 2 * i + 1) mod height small))
                [0..<10 + raw g (used g) mod 10]"
  let ?g' = "g\<lparr>used := used g + 1 + 2 * (10 + raw g (used g) mod 10)\<rparr>"
  have s: "pre_random_point small g = Inr (?pts, ?g')"
    by (rule pre_random_point_eq [OF assms])
  have 1: "randrange 10 20 g = Inr (length ?pts, g\<lparr>used := Suc (used g)\<rparr>)"
    by (simp add: randrange_def)
  have 2: "10 \<le> length ?pts \<and> length ?pts < 20" by simp
  have 3: "\<forall>i < length ?pts.
         ?pts ! i = (raw g (used g + 1 + 2 * i) mod width small,
                    raw g (used g + 2 + 2 * i) mod height small) \<and>
         fst (?pts ! i) < width small \<and> snd (?pts ! i) < height small"
    using assms by (simp del: upt_Suc)
  have 4: "?g' = g\<lparr>used := used g + 1 + 2 * length ?pts\<rparr>" by simp
  have 5: "image_center_by_rgb g small big rate =
        (case for_return (candidates small big)
                (\<lambda>c. try_placement ?pts small big rate (fst c) (snd c)) of
           Inl e \<Rightarrow> Inl e
         | Inr r \<Rightarrow> Inr (r, ?g'))"
    by (simp only: image_center_by_rgb_def s scan_candidates sum.case prod.case)
  have 6: "\<forall>target. 10 \<le> length target \<and> length target < 20 \<and> in_template small target \<longrightarrow>
         (\<exists>g0 g1. pre_random_point small g0 = Inr (target, g1))"
    using pre_random_point_reaches by blast
  from s 1 2 3 4 5 6 show ?thesis by blast
qed

text \<open>Witness: the dot template and the generator whose \<open>k\<close>-th raw number is \<open>k\<close>.\<close>

theorem sample_drawn_once_witness:
  "0 < width dot \<and> 0 < height dot \<and>
   pre_random_point dot counting = Inr (replicate 10 (0, 0), counting\<lparr>used := 21\<rparr>) \<and>
   randrange 10 20 counting = Inr (10, counting\<lparr>used := 1\<rparr>) \<and>
   (3::nat) < length (replicate 10 (0 :: nat, 0 :: nat)) \<and>
   replicate 10 (0, 0) ! 3 = (raw counting 7 mod width dot, raw counting 8 mod height dot) \<and>
   image_center_by_rgb counting dot two_dots 1 =
     (case for_return (candidates dot two_dots)
             (\<lambda>c. try_placement (replicate 10 (0, 0)) dot two_dots 1 (fst c) (snd c)) of
        Inl e \<Rightarrow> Inl e
      | Inr r \<Rightarrow> Inr (r, counting\<lparr>used := 21\<rparr>)) \<and>
   10 \<le> length (replicate 10 (0 :: nat, 0 :: nat)) \<and>
   length (replicate 10 (0 :: nat, 0 :: nat)) < 20 \<and>
   in_template dot (replicate 10 (0, 0)) \<and>
   (\<exists>g0 g1. pre_random_point dot g0 = Inr (replicate 10 (0, 0), g1))"
proof -
  have h: "0 < width dot" "0 < height dot" by (simp_all add: dot_size)
  from sample_drawn_once [OF h, of counting two_dots 1]
  obtain pts g' where p: "pre_random_point dot counting = Inr (pts, g')"
    and r: "randrange 10 20 counting =
              Inr (length pts, counting\<lparr>used := Suc (used counting)\<rparr>)"
    and i: "\<forall>i < length pts.
         pts ! i = (raw counting (used counting + 1 + 2 * i) mod width dot,
                    raw counting (used counting + 2 + 2 * i) mod height dot) \<and>
         fst (pts ! i) < width dot \<and> snd (pts ! i) < height dot"
    and c: "image_center_by_rgb counting dot two_dots 1 =
        (case for_return (candidates dot two_dots)
                (\<lambda>c. try_placement pts dot two_dots 1 (fst c) (snd c)) of
           Inl e \<Rightarrow> Inl e
         | Inr r \<Rightarrow> Inr (r, g'))"
    and t: "\<forall>target. 10 \<le> length target \<and> length target < 20 \<and> in_template dot target \<longrightarrow>
         (\<exists>g0 g1. pre_random_point dot g0 = Inr (target, g1))"
    by blast
  from p have pts: "pts = replicate 10 (0, 0)" and g': "g' = counting\<lparr>used := 21\<rparr>"
    by (simp_all add: pre_random_point_dot)
  have u: "used counting = 0" by (simp add: counting_def)
  have it: "in_template dot (replicate 10 (0, 0))"
    by (simp add: in_template_def list_all_iff dot_size)
  have l: "length (replicate 10 (0 :: nat, 0 :: nat)) = 10" by simp
  from i [unfolded pts u l] have "replicate 10 (0, 0) ! 3 =
      (raw counting (0 + 1 + 2 * 3) mod width dot, raw counting (0 + 2 + 2 * 3) mod height dot)"
    by (simp del: nth_replicate)
  then have 3: "replicate 10 (0, 0) ! 3 =
      (raw counting 7 mod width dot, raw counting 8 mod height dot)"
    by simp
  from r [unfolded pts u l] have 1: "randrange 10 20 counting = Inr (10, counting\<lparr>used := 1\<rparr>)"
    by simp
  from t it have e: "\<exists>g0 g1. pre_random_point dot g0 = Inr (replicate 10 (0, 0), g1)"
    by simp
  from h pre_random_point_dot 1 3 c [unfolded pts g'] it e show ?thesis
    by simp
qed

lemma phases_total:
  assumes c: "c \<in> set (candidates small big)"
    and pts: "pts \<noteq> []" "in_template small pts"
    and wh: "0 < width small" "0 < height small"
  shows "\<forall>p \<in> set pts \<union> set (grid small). inside (fst c) (snd c) big small p"
    and "\<exists>b. pre_random_match (fst c) (snd c) pts big small rate = Inr b"
    and "\<exists>b. check_match (fst c) (snd c) small big small rate = Inr b"
proof -
  have i1: "\<forall>p \<in> set pts. inside (fst c) (snd c) big small p"
    using c pts by (auto simp: in_template_def list_all_iff intro!: candidates_inside)
  have i2: "\<forall>p \<in> set (grid small). inside (fst c) (snd c) big small p"
    using c by (auto simp: grid_iff intro!: candidates_inside)
  from i1 i2 show "\<forall>p \<in> set pts \<union> set (grid small). inside (fst c) (snd c) big small p"
    by blast
  show "\<exists>b. pre_random_match (fst c) (snd c) pts big small rate = Inr b"
    using pts(1) by (simp add: pre_random_match_inside [OF i1])
  have "grid small \<noteq> []" using wh by (simp add: grid_empty_iff)
  then show "\<exists>b. check_match (fst c) (snd c) small big small rate = Inr b"
    by (simp add: check_match_inside [OF i2])
qed

text \<open>
  Claim C10 (the scan cannot fail). For a template of width and height at least 1 and any
  screen, the sampler succeeds with at least 10 points, the denominator
  \<open>width * height\<close> of the full verification is positive, at every placement of the scan
  every read of both comparison loops is inside its image, both phases return a truth
  value, and \<open>image_center_by_rgb\<close> returns a result: no IndexError and no
  ZeroDivisionError. A screen smaller than the template has no placement, so the bound on
  the screen's size is not needed.
\<close>

theorem scan_never_fails:
  assumes "0 < width small" "0 < height small"
  shows "\<exists>pts r g'.
      pre_random_point small g = Inr (pts, g') \<and> 10 \<le> length pts \<and>
      0 < width small * height small \<and>
      (\<forall>c \<in> set (candidates small big).
         (\<forall>p \<in> set pts \<union> set (grid small). inside (fst c) (snd c) big small p) \<and>
         (\<exists>b. pre_random_match (fst c) (snd c) pts big small rate = Inr b) \<and>
         (\<exists>b. check_match (fst c) (snd c) small big small rate = Inr b)) \<and>
      image_center_by_rgb g small big rate = Inr (r, g')"
proof -
  from pre_random_point_total [OF assms, of g]
  obtain pts g' where s: "pre_random_point small g = Inr (pts, g')" by blast
  from pre_random_point_props [OF s]
  have pts: "10 \<le> length pts" "pts \<noteq> []" "in_template small pts" by auto
  have "\<forall>c \<in> set (candidates small big).
         (\<forall>p \<in> set pts \<union> set (grid small). inside (fst c) (snd c) big small p) \<and>
         (\<exists>b. pre_random_match (fst c) (snd c) pts big small rate = Inr b) \<and>
         (\<exists>b. check_match (fst c) (snd c) small big small rate = Inr b)"
    using phases_total [OF _ pts(2,3) assms] by blast
  moreover have "0 < width small * height small" using assms by simp
  moreover note image_center_by_rgb_find [OF s, of big rate] s pts(1)
  ultimately show ?thesis by blast
qed

text \<open>Witness: the dot template on the 3 by 3 screen at rate 9/10, at the placement \<open>(1, 1)\<close>.\<close>

theorem scan_never_fails_witness:
  "0 < width dot \<and> 0 < height dot \<and> (1, 1) \<in> set (candidates dot two_dots) \<and>
   (0, 0) \<in> set (replicate 10 (0, 0)) \<union> set (grid dot) \<and>
   pre_random_point dot counting = Inr (replicate 10 (0, 0), counting\<lparr>used := 21\<rparr>) \<and>
   inside 1 1 two_dots dot (0, 0) \<and>
   (\<exists>b. pre_random_match 1 1 (replicate 10 (0, 0)) two_dots dot (9 / 10) = Inr b) \<and>
   (\<exists>b. check_match 1 1 dot two_dots dot (9 / 10) = Inr b) \<and>
   (\<exists>r. image_center_by_rgb counting dot two_dots (9 / 10) = Inr (r, counting\<lparr>used := 21\<rparr>))"
proof -
  have h: "0 < width dot" "0 < height dot" by (simp_all add: dot_size)
  have m: "(1, 1) \<in> set (candidates dot two_dots)"
    by (simp add: candidates_dot_two_dots)
  have q: "(0, 0) \<in> set (replicate 10 (0 :: nat, 0 :: nat)) \<union> set (grid dot)"
    by (simp add: grid_dot)
  from scan_never_fails [OF h, of counting two_dots "9 / 10"]
  obtain pts r g' where p: "pre_random_point dot counting = Inr (pts, g')"
    and a: "\<forall>c \<in> set (candidates dot two_dots).
         (\<forall>p \<in> set pts \<union> set (grid dot). inside (fst c) (snd c) two_dots dot p) \<and>
         (\<exists>b. pre_random_match (fst c) (snd c) pts two_dots dot (9 / 10) = Inr b) \<and>
         (\<exists>b. check_match (fst c) (snd c) dot two_dots dot (9 / 10) = Inr b)"
    and r: "image_center_by_rgb counting dot two_dots (9 / 10) = Inr (r, g')"
    by blast
  from p have pts: "pts = replicate 10 (0, 0)" and g': "g' = counting\<lparr>used := 21\<rparr>"
    by (simp_all add: pre_random_point_dot)
  from a [unfolded pts, rule_format, OF m] q
  have "inside 1 1 two_dots dot (0, 0)"
    "\<exists>b. pre_random_match 1 1 (replicate 10 (0, 0)) two_dots dot (9 / 10) = Inr b"
    "\<exists>b. check_match 1 1 dot two_dots dot (9 / 10) = Inr b"
    by auto
  with h m q pre_random_point_dot r [unfolded g'] show ?thesis by blast
qed

section \<open>Properties of the loops of find_image\<close>

lemma call_match_calls:
  "call_match ev el rate m nr w = (r, w1) \<Longrightarrow>
   match_calls w1 = match_calls w @ [(el, rate, m, nr)] \<and>
   (\<forall>e. r = Inl e \<longrightarrow> e = ValueError \<or> e = EnvironmentError)"
  by (auto simp: call_match_def split: match_outcome.splits)

lemma call_sleep_calls:
  "call_sleep n w = (r, w1) \<Longrightarrow>
   match_calls w1 = match_calls w \<and> (\<forall>e. r = Inl e \<longrightarrow> e = ValueError)"
  by (auto simp: call_sleep_def split: if_splits)

lemma call_time_calls: "call_time ev w = (t, w1) \<Longrightarrow> match_calls w1 = match_calls w"
  by (auto simp: call_time_def)

lemma retry_loop_calls:
  "retry_loop n ev el rate m nr pause timeout st w = (r, w') \<Longrightarrow>
   (\<exists>k. k \<le> n \<and> (0 < n \<longrightarrow> 0 < k) \<and>
        match_calls w' = match_calls w @ replicate k (el, rate, m, nr)) \<and>
   (\<forall>e. r = Inl e \<longrightarrow> e = ValueError \<or> e = EnvironmentError)"
proof (induction n arbitrary: w)
  case 0
  then show ?case by auto
next
  case (Suc n)
  obtain r1 w1 where c1: "call_match ev el rate m nr w = (r1, w1)" by force
  note m1 = call_match_calls [OF c1]
  have one: "\<exists>k. k \<le> Suc n \<and> (0 < Suc n \<longrightarrow> 0 < k) \<and>
      match_calls w1 = match_calls w @ replicate k (el, rate, m, nr)"
    using m1 by (intro exI [of _ 1]) simp
  show ?case
  proof (cases r1)
    case (Inl e)
    with Suc.prems c1 have "r = Inl e" "w' = w1" by simp_all
    with one m1 Inl show ?thesis by simp
  next
    case (Inr locate)
    show ?thesis
    proof (cases "truthy locate")
      case True
      with Suc.prems c1 Inr have "r = Inr (Some locate)" "w' = w1" by simp_all
      with one show ?thesis by simp
    next
      case False
      obtain r2 w2 where c2: "call_sleep (py_int pause) w1 = (r2, w2)" by force
      note m2 = call_sleep_calls [OF c2]
      show ?thesis
      proof (cases r2)
        case (Inl e)
        with Suc.prems c1 c2 Inr False have "r = Inl e" "w' = w2" by simp_all
        with one m2 Inl show ?thesis by simp
      next
        case u: (Inr u)
        obtain t w3 where c3: "call_time ev w2 = (t, w3)" by force
        note m3 = call_time_calls [OF c3]
        show ?thesis
        proof (cases "t - st > timeout")
          case True
          with Suc.prems c1 c2 c3 Inr False u have "r = Inr None" "w' = w3" by simp_all
          with one m2 m3 show ?thesis by simp
        next
          case nt: False
          with Suc.prems c1 c2 c3 Inr False u
          have "retry_loop n ev el rate m nr pause timeout st w3 = (r, w')" by simp
          from Suc.IH [OF this] obtain k where k: "k \<le> n"
            "match_calls w' = match_calls w3 @ replicate k (el, rate, m, nr)"
            and e: "\<forall>e. r = Inl e \<longrightarrow> e = ValueError \<or> e = EnvironmentError"
            by blast
          from k m1 m2 m3 have "Suc k \<le> Suc n \<and> (0 < Suc n \<longrightarrow> 0 < Suc k) \<and>
              match_calls w' = match_calls w @ replicate (Suc k) (el, rate, m, nr)"
            by simp
          with e show ?thesis by blast
        qed
      qed
    qed
  qed
qed

lemma widget_loop_calls:
  assumes "widget_loop ws ev rate m nr pause timeout retry w = (r, w')" "0 \<le> retry"
  shows "(\<exists>new. match_calls w' = match_calls w @ new \<and> fst ` set new \<subseteq> set ws \<and>
            (r = Inr None \<longrightarrow> fst ` set new = set ws) \<and>
            (ws \<noteq> [] \<longrightarrow> new \<noteq> []) \<and>
            (\<forall>c \<in> set new. fst (snd c) = rate)) \<and>
         (\<forall>e. r = Inl e \<longrightarrow> e = ValueError \<or> e = EnvironmentError)"
  using assms
proof (induction ws arbitrary: w)
  case Nil
  then show ?case by auto
next
  case (Cons el rest)
  obtain st w1 where c1: "call_time ev w = (st, w1)" by force
  note m1 = call_time_calls [OF c1]
  obtain r2 w2 where c2: "retry_loop (nat (retry + 1)) ev el rate m nr pause timeout st w1 = (r2, w2)"
    by force
  from retry_loop_calls [OF c2] Cons.prems(2) obtain k where k: "0 < k"
    "match_calls w2 = match_calls w1 @ replicate k (el, rate, m, nr)"
    and e2: "\<forall>e. r2 = Inl e \<longrightarrow> e = ValueError \<or> e = EnvironmentError"
    by auto
  let ?new = "replicate k (el, rate, m, nr)"
  have s: "fst ` set ?new = {el}" "?new \<noteq> []" "\<forall>c \<in> set ?new. fst (snd c) = rate"
    using k(1) by auto
  show ?case
  proof (cases "r2 = Inr None")
    case True
    with Cons.prems c1 c2
    have "widget_loop rest ev rate m nr pause timeout retry w2 = (r, w')" by simp
    from Cons.IH [OF this Cons.prems(2)] obtain new
      where n: "match_calls w' = match_calls w2 @ new" "fst ` set new \<subseteq> set rest"
        "r = Inr None \<longrightarrow> fst ` set new = set rest" "\<forall>c \<in> set new. fst (snd c) = rate"
      and e: "\<forall>e. r = Inl e \<longrightarrow> e = ValueError \<or> e = EnvironmentError"
      by blast
    have "match_calls w' = match_calls w @ (?new @ new)"
      using n(1) k(2) m1 by simp
    moreover have "fst ` set (?new @ new) \<subseteq> set (el # rest)"
      using s(1) n(2) by auto
    moreover have "r = Inr None \<longrightarrow> fst ` set (?new @ new) = set (el # rest)"
      using s(1) n(3) by (auto simp: image_Un)
    moreover have "?new @ new \<noteq> []" using s(2) by simp
    moreover have "\<forall>c \<in> set (?new @ new). fst (snd c) = rate"
      using s(3) n(4) by auto
    ultimately show ?thesis using e by blast
  next
    case False
    with Cons.prems c1 c2 have rw: "r = r2" "w' = w2"
      by (auto split: sum.splits option.splits)
    have "match_calls w' = match_calls w @ ?new" using rw k(2) m1 by simp
    moreover have "fst ` set ?new \<subseteq> set (el # rest)" using s(1) by auto
    moreover have "r \<noteq> Inr None" using rw False by simp
    ultimately show ?thesis using s(2,3) e2 rw by blast
  qed
qed

lemma retry_loop_exhaust:
  assumes falsy: "\<forall>k t r m nr. \<exists>l. match_image ev k t r m nr = Returned l \<and> \<not> truthy l"
    and pause: "0 \<le> py_int pause"
    and clock: "\<forall>k. time_now ev k - st \<le> timeout"
  shows "retry_loop n ev el rate m nr pause timeout st w =
     (Inr None,
      \<lparr>match_calls = match_calls w @ replicate n (el, rate, m, nr),
       time_calls = time_calls w + n,
       sleeps = sleeps w @ replicate n (py_int pause)\<rparr>)"
proof (induction n arbitrary: w)
  case 0
  show ?case by simp
next
  case (Suc n)
  from falsy obtain l where l: "match_image ev (length (match_calls w)) el rate m nr = Returned l"
    "\<not> truthy l" by blast
  let ?w3 = "\<lparr>match_calls = match_calls w @ [(el, rate, m, nr)],
              time_calls = Suc (time_calls w),
              sleeps = sleeps w @ [py_int pause]\<rparr>"
  have nt: "\<not> time_now ev (time_calls w) - st > timeout"
    using clock by (simp add: not_less)
  have "retry_loop (Suc n) ev el rate m nr pause timeout st w =
      retry_loop n ev el rate m nr pause timeout st ?w3"
    using l pause nt by (cases w) (simp add: call_match_def call_sleep_def call_time_def)
  also have "\<dots> = (Inr None,
      \<lparr>match_calls = match_calls ?w3 @ replicate n (el, rate, m, nr),
       time_calls = time_calls ?w3 + n,
       sleeps = sleeps ?w3 @ replicate n (py_int pause)\<rparr>)"
    by (rule Suc.IH)
  finally show ?case by (simp add: replicate_app_Cons_same)
qed

lemma widget_loop_exhaust:
  assumes falsy: "\<forall>k t r m nr. \<exists>l. match_image ev k t r m nr = Returned l \<and> \<not> truthy l"
    and pause: "0 \<le> py_int pause"
    and clock: "\<forall>j k. time_now ev k - time_now ev j \<le> timeout"
  shows "widget_loop ws ev rate m nr pause timeout retry w =
     (Inr None,
      \<lparr>match_calls = match_calls w @
         concat (map (\<lambda>t. replicate (nat (retry + 1)) (t, rate, m, nr)) ws),
       time_calls = time_calls w + length ws * Suc (nat (retry + 1)),
       sleeps = sleeps w @ replicate (length ws * nat (retry + 1)) (py_int pause)\<rparr>)"
proof (induction ws arbitrary: w)
  case Nil
  show ?case by simp
next
  case (Cons el rest)
  let ?n = "nat (retry + 1)"
  let ?w1 = "w\<lparr>time_calls := Suc (time_calls w)\<rparr>"
  let ?w2 = "\<lparr>match_calls = match_calls ?w1 @ replicate ?n (el, rate, m, nr),
       time_calls = time_calls ?w1 + ?n,
       sleeps = sleeps ?w1 @ replicate ?n (py_int pause)\<rparr>"
  have c: "\<forall>k. time_now ev k - time_now ev (time_calls w) \<le> timeout"
    using clock by blast
  have r: "retry_loop ?n ev el rate m nr pause timeout (time_now ev (time_calls w)) ?w1 =
      (Inr None, ?w2)"
    by (rule retry_loop_exhaust [OF falsy pause c])
  have "widget_loop (el # rest) ev rate m nr pause timeout retry w =
      widget_loop rest ev rate m nr pause timeout retry ?w2"
    using r by (simp add: call_time_def)
  also note Cons.IH [of ?w2]
  finally show ?case by (simp add: replicate_add)
qed

lemma find_image_exhaust:
  assumes falsy: "\<forall>k t r m nr. \<exists>l. match_image ev k t r m nr = Returned l \<and> \<not> truthy l"
    and pause: "0 \<le> py_int (if_else pause (PAUSE cf))"
    and clock: "\<forall>j k. time_now ev k - time_now ev j \<le> if_else timeout (TIMEOUT cf)"
    and retry: "0 \<le> if_else max_match_number (MAX_MATCH_NUMBER cf)"
  shows "find_image cf ev widget rate multiple network_retry pause timeout max_match_number w =
     (Inl (TemplateElementNotFound widget),
      \<lparr>match_calls = match_calls w @
         concat (map (\<lambda>t. replicate (nat (if_else max_match_number (MAX_MATCH_NUMBER cf) + 1))
                            (t, case rate of None \<Rightarrow> IMAGE_RATE cf | Some r \<Rightarrow> r, multiple,
                             if_else network_retry (NETWORK_RETRY cf))) widget),
       time_calls = time_calls w +
         length widget * Suc (nat (if_else max_match_number (MAX_MATCH_NUMBER cf) + 1)),
       sleeps = sleeps w @
         replicate (length widget * nat (if_else max_match_number (MAX_MATCH_NUMBER cf) + 1))
           (py_int (if_else pause (PAUSE cf)))\<rparr>)"
  using retry
  by (simp add: find_image_def Let_def widget_loop_exhaust [OF falsy pause clock])

lemma retry_loop_not_found:
  assumes falsy: "\<forall>k t r m nr. \<exists>l. match_image ev k t r m nr = Returned l \<and> \<not> truthy l"
    and pause: "0 \<le> py_int pause"
  shows "fst (retry_loop n ev el rate m nr pause timeout st w) = Inr None"
proof (induction n arbitrary: w)
  case 0
  show ?case by simp
next
  case (Suc n)
  from falsy obtain l where l: "match_image ev (length (match_calls w)) el rate m nr = Returned l"
    "\<not> truthy l" by blast
  with pause Suc.IH show ?case
    by (simp add: call_match_def call_sleep_def call_time_def)
qed

lemma widget_loop_not_found:
  assumes falsy: "\<forall>k t r m nr. \<exists>l. match_image ev k t r m nr = Returned l \<and> \<not> truthy l"
    and pause: "0 \<le> py_int pause"
  shows "fst (widget_loop ws ev rate m nr pause timeout retry w) = Inr None"
proof (induction ws arbitrary: w)
  case Nil
  show ?case by simp
next
  case (Cons el rest)
  obtain st w1 where c1: "call_time ev w = (st, w1)" by force
  obtain r2 w2 where c2:
    "retry_loop (nat (retry + 1)) ev el rate m nr pause timeout st w1 = (r2, w2)"
    by force
  from retry_loop_not_found [OF falsy pause, of "nat (retry + 1)" el rate m nr timeout st w1] c2
  have "r2 = Inr None" by simp
  with c1 c2 Cons.IH [of w2] show ?case by simp
qed

section \<open>The claims about find_image\<close>

lemma never_found_falsy:
  "\<forall>k t r m nr. \<exists>l. match_image never_found k t r m nr = Returned l \<and> \<not> truthy l"
  by (simp add: never_found_def)

lemma py_int_one: "py_int 1 = 1"
  by (simp add: py_int_def)

lemma find_image_never_found:
  assumes "0 \<le> if_else max_match_number (MAX_MATCH_NUMBER conf0)"
  shows "find_image conf0 never_found widget rate multiple None None None max_match_number idle =
     (Inl (TemplateElementNotFound widget),
      \<lparr>match_calls =
         concat (map (\<lambda>t. replicate (nat (if_else max_match_number (MAX_MATCH_NUMBER conf0) + 1))
                            (t, case rate of None \<Rightarrow> IMAGE_RATE conf0 | Some r \<Rightarrow> r, multiple, 1))
                   widget),
       time_calls = length widget * Suc (nat (if_else max_match_number (MAX_MATCH_NUMBER conf0) + 1)),
       sleeps = replicate (length widget * nat (if_else max_match_number (MAX_MATCH_NUMBER conf0) + 1)) 1\<rparr>)"
proof -
  have p: "0 \<le> py_int (if_else None (PAUSE conf0))"
    by (simp add: if_else_def conf0_def py_int_one)
  have c: "\<forall>j k. time_now never_found k - time_now never_found j \<le> if_else None (TIMEOUT conf0)"
    by (simp add: never_found_def if_else_def conf0_def)
  from find_image_exhaust [OF never_found_falsy p c assms, of widget rate multiple None idle]
  show ?thesis
    by (simp add: if_else_def conf0_def py_int_one idle_def)
qed

text \<open>
  Claim C8 (\<open>max_match_number = 0\<close>), evaluated: with \<open>MAX_MATCH_NUMBER = 2\<close> in the
  settings and a screen on which nothing is ever found, \<open>find_image\<close> called with
  \<open>max_match_number = 0\<close> makes three matching attempts before it raises, not one: the
  test \<open>max_match_number if max_match_number else conf.MAX_MATCH_NUMBER\<close> takes 0 for a
  missing argument. Called with \<open>max_match_number = 1\<close> it makes two.
\<close>

theorem zero_retries_replaced_by_configured:
  "MAX_MATCH_NUMBER conf0 = 2 \<and>
   find_image conf0 never_found [''a.png''] (Some 1) False None None None (Some 0) idle =
     (Inl (TemplateElementNotFound [''a.png'']),
      \<lparr>match_calls = replicate 3 (''a.png'', 1, False, 1), time_calls = 4,
       sleeps = replicate 3 1\<rparr>) \<and>
   find_image conf0 never_found [''a.png''] (Some 1) False None None None (Some 1) idle =
     (Inl (TemplateElementNotFound [''a.png'']),
      \<lparr>match_calls = replicate 2 (''a.png'', 1, False, 1), time_calls = 3,
       sleeps = replicate 2 1\<rparr>)"
proof -
  have 0: "0 \<le> if_else (Some 0) (MAX_MATCH_NUMBER conf0)"
    and 1: "0 \<le> if_else (Some 1) (MAX_MATCH_NUMBER conf0)"
    by (simp_all add: if_else_def conf0_def)
  from find_image_never_found [OF 0, of "[''a.png'']" "Some 1" False]
    find_image_never_found [OF 1, of "[''a.png'']" "Some 1" False]
  show ?thesis
    by (simp add: if_else_def conf0_def)
qed

text \<open>
  Claim C9 as stated fails for the rate: called with the rate 2, outside \<open>[0, 1]\<close>,
  \<open>find_image\<close> makes two capture-and-match calls, hands the rate 2 to each, and ends
  with TemplateElementNotFound, not with a configuration error.
\<close>

theorem out_of_range_rate_counterexample:
  "find_image conf0 never_found [''a.png''] (Some 2) False None None None (Some 1) idle =
     (Inl (TemplateElementNotFound [''a.png'']),
      \<lparr>match_calls = replicate 2 (''a.png'', 2, False, 1), time_calls = 3,
       sleeps = replicate 2 1\<rparr>)"
proof -
  have 1: "0 \<le> if_else (Some 1) (MAX_MATCH_NUMBER conf0)"
    by (simp add: if_else_def conf0_def)
  from find_image_never_found [OF 1, of "[''a.png'']" "Some 2" False]
  show ?thesis
    by (simp add: if_else_def conf0_def)
qed

lemma find_image_world:
  assumes "find_image cf ev widget rate multiple network_retry pause timeout max_match_number w
             = (res, w')"
    and "0 \<le> if_else max_match_number (MAX_MATCH_NUMBER cf)"
  shows "\<exists>r. widget_loop widget ev (case rate of None \<Rightarrow> IMAGE_RATE cf | Some r \<Rightarrow> r) multiple
           (if_else network_retry (NETWORK_RETRY cf)) (if_else pause (PAUSE cf))
           (if_else timeout (TIMEOUT cf)) (if_else max_match_number (MAX_MATCH_NUMBER cf)) w
         = (r, w') \<and>
         res = (case r of Inl e \<Rightarrow> Inl e | Inr None \<Rightarrow> Inl (TemplateElementNotFound widget)
                | Inr (Some l) \<Rightarrow> Inr l)"
  using assms
  by (auto simp: find_image_def Let_def split: prod.splits sum.splits option.splits)

text \<open>
  Claim C9, amended. A call of \<open>find_image\<close> with a negative \<open>max_match_number\<close>
  raises ValueError before any capture, match, clock read or sleep: the state is
  unchanged. The rate is not checked: with a count that is not negative and at least one
  template, every rate is handed unchanged to the matcher, which is called at least once.
\<close>

theorem negative_count_rejected_first:
  "(max_match_number = Some n \<and> n < 0 \<longrightarrow>
      find_image cf ev widget rate multiple network_retry pause timeout max_match_number w
        = (Inl ValueError, w)) \<and>
   (0 \<le> if_else max_match_number (MAX_MATCH_NUMBER cf) \<and> widget \<noteq> [] \<and>
    find_image cf ev widget (Some r) multiple network_retry pause timeout max_match_number w
      = (res, w') \<longrightarrow>
      (\<exists>new. match_calls w' = match_calls w @ new \<and> new \<noteq> [] \<and>
         (\<forall>c \<in> set new. fst (snd c) = r)))"
proof (intro conjI impI)
  assume "max_match_number = Some n \<and> n < 0"
  then show "find_image cf ev widget rate multiple network_retry pause timeout
      max_match_number w = (Inl ValueError, w)"
    by (simp add: find_image_def if_else_def Let_def)
next
  assume a: "0 \<le> if_else max_match_number (MAX_MATCH_NUMBER cf) \<and> widget \<noteq> [] \<and>
    find_image cf ev widget (Some r) multiple network_retry pause timeout max_match_number w
      = (res, w')"
  then obtain r' where "widget_loop widget ev r multiple
           (if_else network_retry (NETWORK_RETRY cf)) (if_else pause (PAUSE cf))
           (if_else timeout (TIMEOUT cf)) (if_else max_match_number (MAX_MATCH_NUMBER cf)) w
         = (r', w')"
    using find_image_world [of cf ev widget "Some r"] by fastforce
  from widget_loop_calls [OF this] a
  show "\<exists>new. match_calls w' = match_calls w @ new \<and> new \<noteq> [] \<and>
         (\<forall>c \<in> set new. fst (snd c) = r)"
    by blast
qed

text \<open>Witness: the count -1, and the rate 2 with the count 1.\<close>

theorem negative_count_rejected_first_witness:
  "Some (- 1 :: int) = Some (- 1) \<and> (- 1 :: int) < 0 \<and>
   find_image conf0 never_found [''a.png''] None False None None None (Some (- 1)) idle
     = (Inl ValueError, idle) \<and>
   0 \<le> if_else (Some 1) (MAX_MATCH_NUMBER conf0) \<and> [''a.png''] \<noteq> [] \<and>
   find_image conf0 never_found [''a.png''] (Some 2) False None None None (Some 1) idle =
     (Inl (TemplateElementNotFound [''a.png'']),
      \<lparr>match_calls = replicate 2 (''a.png'', 2, False, 1), time_calls = 3,
       sleeps = replicate 2 1\<rparr>) \<and>
   (\<exists>new. replicate 2 (''a.png'', 2 :: real, False, 1 :: int) = match_calls idle @ new \<and>
      new \<noteq> [] \<and> (\<forall>c \<in> set new. fst (snd c) = 2))"
proof -
  let ?w' = "\<lparr>match_calls = replicate 2 (''a.png'', 2 :: real, False, 1 :: int),
              time_calls = 3, sleeps = replicate 2 1\<rparr>"
  have 1: "0 \<le> if_else (Some 1) (MAX_MATCH_NUMBER conf0)"
    by (simp add: if_else_def conf0_def)
  have f: "find_image conf0 never_found [''a.png''] (Some 2) False None None None (Some 1) idle =
     (Inl (TemplateElementNotFound [''a.png'']), ?w')"
    using find_image_never_found [OF 1, of "[''a.png'']" "Some 2" False]
    by (simp add: if_else_def conf0_def)
  have n: "Some (- 1 :: int) = Some (- 1) \<and> (- 1 :: int) < 0" by simp
  from negative_count_rejected_first [of "Some (- 1)" "- 1" conf0 never_found "[''a.png'']" None
      False None None None idle] n
  have a: "find_image conf0 never_found [''a.png''] None False None None None (Some (- 1)) idle
     = (Inl ValueError, idle)"
    by blast
  from negative_count_rejected_first [of "Some 1" 1 conf0 never_found "[''a.png'']" None
      False None None None idle 2 "Inl (TemplateElementNotFound [''a.png''])" ?w'] 1 f
  have "\<exists>new. match_calls ?w' = match_calls idle @ new \<and> new \<noteq> [] \<and>
      (\<forall>c \<in> set new. fst (snd c) = 2)"
    by blast
  with n a 1 f show ?thesis by simp
qed

lemma image_center_by_rgb_errors:
  "image_center_by_rgb g small big rate = Inl e \<Longrightarrow> e = ValueError"
proof (cases "0 < width small \<and> 0 < height small")
  case True
  then have "0 < width small" "0 < height small" by simp_all
  from pre_random_point_total [OF this, of g] obtain pts g'
    where "pre_random_point small g = Inr (pts, g')" by blast
  from image_center_by_rgb_find [OF this, of big rate]
  show "image_center_by_rgb g small big rate = Inl e \<Longrightarrow> e = ValueError" by simp
next
  case False
  then have "pre_random_point small g = Inl ValueError"
    by (intro pre_random_point_zero) auto
  then show "image_center_by_rgb g small big rate = Inl e \<Longrightarrow> e = ValueError"
    by (simp add: image_center_by_rgb_def)
qed

text \<open>
  Claim C7 (propagation of not-found). When no placement passes both phases,
  \<open>image_center_by_rgb\<close> returns \<open>False\<close>, and on no input does it raise
  TemplateElementNotFound. When \<open>find_image\<close> raises TemplateElementNotFound, the
  exception names exactly the templates given, and these are exactly the templates for
  which a matching attempt was made. When no attempt finds anything, the pause is not
  negative and the count is not negative, \<open>find_image\<close> raises
  TemplateElementNotFound with all the templates.
\<close>

theorem not_found_raised_only_by_find_image:
  "(pre_random_point small g = Inr (pts, g') \<and>
    (\<forall>c \<in> set (candidates small big). \<not> accepted pts small big rate c) \<longrightarrow>
      image_center_by_rgb g small big rate = Inr (None, g')) \<and>
   (\<forall>ns. image_center_by_rgb g small big rate \<noteq> Inl (TemplateElementNotFound ns)) \<and>
   (find_image cf ev widget rt multiple network_retry pause timeout max_match_number w
      = (Inl (TemplateElementNotFound ns), w') \<longrightarrow>
      ns = widget \<and>
      (\<exists>new. match_calls w' = match_calls w @ new \<and> fst ` set new = set widget)) \<and>
   ((\<forall>k t r m nr. \<exists>l. match_image ev k t r m nr = Returned l \<and> \<not> truthy l) \<and>
    0 \<le> py_int (if_else pause (PAUSE cf)) \<and>
    0 \<le> if_else max_match_number (MAX_MATCH_NUMBER cf) \<longrightarrow>
      fst (find_image cf ev widget rt multiple network_retry pause timeout max_match_number w)
        = Inl (TemplateElementNotFound widget))"
proof (intro conjI impI allI)
  assume a: "pre_random_point small g = Inr (pts, g') \<and>
    (\<forall>c \<in> set (candidates small big). \<not> accepted pts small big rate c)"
  then have "find (accepted pts small big rate) (candidates small big) = None"
    by (simp add: find_None_iff)
  with a image_center_by_rgb_find [of small g pts g' big rate]
  show "image_center_by_rgb g small big rate = Inr (None, g')" by simp
next
  fix ns
  show "image_center_by_rgb g small big rate \<noteq> Inl (TemplateElementNotFound ns)"
    using image_center_by_rgb_errors [of g small big rate] by auto
next
  assume f: "find_image cf ev widget rt multiple network_retry pause timeout max_match_number w
      = (Inl (TemplateElementNotFound ns), w')"
  then have nn: "0 \<le> if_else max_match_number (MAX_MATCH_NUMBER cf)"
    by (auto simp: find_image_def Let_def split: if_splits)
  from find_image_world [OF f nn] obtain r
    where l: "widget_loop widget ev (case rt of None \<Rightarrow> IMAGE_RATE cf | Some r \<Rightarrow> r) multiple
           (if_else network_retry (NETWORK_RETRY cf)) (if_else pause (PAUSE cf))
           (if_else timeout (TIMEOUT cf)) (if_else max_match_number (MAX_MATCH_NUMBER cf)) w
         = (r, w')"
      and r: "Inl (TemplateElementNotFound ns) =
         (case r of Inl e \<Rightarrow> Inl e | Inr None \<Rightarrow> Inl (TemplateElementNotFound widget)
          | Inr (Some l) \<Rightarrow> Inr l)"
    by blast
  note c = widget_loop_calls [OF l nn]
  from c r have "r = Inr None"
    by (cases r) (auto split: option.splits)
  with r c show "ns = widget" by simp
  from \<open>r = Inr None\<close> c
  show "\<exists>new. match_calls w' = match_calls w @ new \<and> fst ` set new = set widget"
    by blast
next
  assume a: "(\<forall>k t r m nr. \<exists>l. match_image ev k t r m nr = Returned l \<and> \<not> truthy l) \<and>
    0 \<le> py_int (if_else pause (PAUSE cf)) \<and>
    0 \<le> if_else max_match_number (MAX_MATCH_NUMBER cf)"
  then have "fst (widget_loop widget ev (case rt of None \<Rightarrow> IMAGE_RATE cf | Some r \<Rightarrow> r)
      multiple (if_else network_retry (NETWORK_RETRY cf)) (if_else pause (PAUSE cf))
      (if_else timeout (TIMEOUT cf)) (if_else max_match_number (MAX_MATCH_NUMBER cf)) w)
      = Inr None"
    by (intro widget_loop_not_found) auto
  with a show "fst (find_image cf ev widget rt multiple network_retry pause timeout
      max_match_number w) = Inl (TemplateElementNotFound widget)"
    by (auto simp: find_image_def Let_def split: prod.splits sum.splits option.splits)
qed

lemma not_accepted_dot_screen4:
  assumes "c \<in> set (candidates dot screen4)"
  shows "\<not> accepted (replicate 10 (0, 0)) dot screen4 1 c"
proof -
  have "accepted (replicate 10 (0, 0)) dot screen4 1 c = identical_at dot screen4 c"
    by (rule accepted_rate_one [OF assms]) (simp_all add: in_template_def list_all_iff dot_size)
  also have "\<dots> = (pix screen4 c = pix dot (0, 0))"
    by (simp add: identical_at_def grid_dot agree_def)
  also have "\<dots> = False"
    by (simp add: screen4_def dot_def)
  finally show ?thesis by simp
qed

text \<open>
  Witness: the dot template on a screen without a red pixel, and two templates in the
  environment where nothing is ever found.
\<close>

theorem not_found_raised_only_by_find_image_witness:
  "pre_random_point dot counting = Inr (replicate 10 (0, 0), counting\<lparr>used := 21\<rparr>) \<and>
   (1, 1) \<in> set (candidates dot screen4) \<and>
   \<not> accepted (replicate 10 (0, 0)) dot screen4 1 (1, 1) \<and>
   image_center_by_rgb counting dot screen4 1 = Inr (None, counting\<lparr>used := 21\<rparr>) \<and>
   (\<exists>l. match_image never_found 0 ''a.png'' (9 / 10) False 1 = Returned l \<and> \<not> truthy l) \<and>
   0 \<le> py_int (if_else None (PAUSE conf0)) \<and>
   0 \<le> if_else None (MAX_MATCH_NUMBER conf0) \<and>
   fst (find_image conf0 never_found [''a.png'', ''b.png''] None False None None None None idle)
     = Inl (TemplateElementNotFound [''a.png'', ''b.png'']) \<and>
   (\<exists>new. match_calls (snd (find_image conf0 never_found [''a.png'', ''b.png''] None False
                               None None None None idle))
            = match_calls idle @ new \<and>
          fst ` set new = set [''a.png'', ''b.png''])"
proof -
  let ?f = "find_image conf0 never_found [''a.png'', ''b.png''] None False None None None None idle"
  note t = not_found_raised_only_by_find_image
    [of dot counting "replicate 10 (0, 0)" "counting\<lparr>used := 21\<rparr>" screen4 1
        conf0 never_found "[''a.png'', ''b.png'']" None False None None None None idle
        "[''a.png'', ''b.png'']" "snd ?f"]
  have m: "(1, 1) \<in> set (candidates dot screen4)"
    by (simp add: candidates_def dot_size screen4_def)
  have n: "\<forall>c \<in> set (candidates dot screen4). \<not> accepted (replicate 10 (0, 0)) dot screen4 1 c"
    by (simp add: not_accepted_dot_screen4)
  from t pre_random_point_dot n
  have 1: "image_center_by_rgb counting dot screen4 1 = Inr (None, counting\<lparr>used := 21\<rparr>)"
    by blast
  have p: "0 \<le> py_int (if_else None (PAUSE conf0))"
    by (simp add: if_else_def conf0_def py_int_one)
  have r: "0 \<le> if_else None (MAX_MATCH_NUMBER conf0)"
    by (simp add: if_else_def conf0_def)
  from t never_found_falsy p r
  have 2: "fst ?f = Inl (TemplateElementNotFound [''a.png'', ''b.png''])"
    by blast
  then have "?f = (Inl (TemplateElementNotFound [''a.png'', ''b.png'']), snd ?f)"
    by (simp add: prod_eq_iff)
  with t have 3: "\<exists>new. match_calls (snd ?f) = match_calls idle @ new \<and>
      fst ` set new = set [''a.png'', ''b.png'']"
    by blast
  have 4: "\<exists>l. match_image never_found 0 ''a.png'' (9 / 10) False 1 = Returned l \<and> \<not> truthy l"
    using never_found_falsy by blast
  from pre_random_point_dot m n 1 4 p r 2 3 show ?thesis by blast
qed

end
